theory Spec2Isabelle
  imports Main "HOL-Library.Word" "HOL-Library.Monad_Syntax" "HOL-Library.Sublist"
begin

section \<open>The HTTP client pool of pool.go\<close>

text \<open>
  The pool caches one \<^verbatim>\<open>*http.Client\<close> per timeout. The claims speak about the
  identity of the clients and transports handed out, so objects live in an explicit heap
  and the pool stores addresses. An operation takes the pool (the value behind the
  receiver \<^verbatim>\<open>p *pool\<close>, which is never nil: \<^verbatim>\<open>NewClientPool\<close> is the only place
  that makes one) and the heap, and returns both updated.

  The model is sequential: one call runs to its end before the next starts. The lock is
  kept as a field all the same, and a call has the result \<open>None\<close> when the code would not
  return: it waits for a lock that nobody will release, unlocks what it does not hold, or
  assigns to an entry of a nil map. The two setters also give the states they go through,
  statement by statement, so that one can see where the lock is taken and released.
\<close>

subsection \<open>Values of the Go standard library\<close>

text \<open>\<^verbatim>\<open>time.Duration\<close> is an \<^verbatim>\<open>int64\<close> count of nanoseconds.\<close>

type_synonym duration = "64 word"

definition Nanosecond :: duration where
  "Nanosecond = 1"

definition Second :: duration where
  "Second = 1000000000 * Nanosecond"

type_synonym addr = nat

text \<open>
  A pointer is \<open>None\<close> (nil) or \<open>Some\<close> address. A \<^verbatim>\<open>*tls.Config\<close> points to an
  object of the caller, which the pool never reads.
\<close>

type_synonym tls_config_ptr = "addr option"

type_synonym client_ptr = "addr option"

text \<open>
  A non-nil \<^verbatim>\<open>http.RoundTripper\<close> holds either a \<^verbatim>\<open>*http.Transport\<close> that
  \<open>GetClient\<close> allocated in the modelled heap, or any other implementation, which belongs
  to the caller and is known by its identity only. The nil interface is \<open>None\<close>.
\<close>

datatype round_tripper_ref = TransportPtr addr | External nat

type_synonym round_tripper = "round_tripper_ref option"

text \<open>
  The fields of \<^verbatim>\<open>net.Dialer\<close> and \<^verbatim>\<open>http.Transport\<close> that the source sets; all
  others keep their zero value.
\<close>

record net_Dialer =
  Dialer_Timeout :: duration
  KeepAlive :: duration

datatype proxy_func = ProxyFromEnvironment

text \<open>The method value \<^verbatim>\<open>(&net.Dialer{...}).Dial\<close> is bound to its dialer.\<close>

datatype dial_func = Dialer_Dial net_Dialer

record http_Transport =
  Proxy :: "proxy_func option"
  TLSClientConfig :: tls_config_ptr
  Dial :: "dial_func option"
  TLSHandshakeTimeout :: duration

record http_Client =
  Transport :: round_tripper
  Timeout :: duration

subsection \<open>The heap\<close>

text \<open>
  Objects are never freed while somebody can still compare them, so the heap only grows:
  an address is an index, and allocation appends. An address is valid when it is below
  the length.
\<close>

record heap =
  client_objs :: "http_Client list"
  transport_objs :: "http_Transport list"

definition new_Client :: "http_Client \<Rightarrow> heap \<Rightarrow> addr \<times> heap" where
  "new_Client c h = (length (client_objs h), h\<lparr>client_objs := client_objs h @ [c]\<rparr>)"

definition new_Transport :: "http_Transport \<Rightarrow> heap \<Rightarrow> addr \<times> heap" where
  "new_Transport t h =
     (length (transport_objs h), h\<lparr>transport_objs := transport_objs h @ [t]\<rparr>)"

definition deref_Client :: "heap \<Rightarrow> addr \<Rightarrow> http_Client option" where
  "deref_Client h a = (if a < length (client_objs h) then Some (client_objs h ! a) else None)"

definition deref_Transport :: "heap \<Rightarrow> addr \<Rightarrow> http_Transport option" where
  "deref_Transport h a =
     (if a < length (transport_objs h) then Some (transport_objs h ! a) else None)"

text \<open>The heap of a program that has allocated nothing yet.\<close>

definition empty_heap :: heap where
  "empty_heap = \<lparr>client_objs = [], transport_objs = []\<rparr>"

subsection \<open>sync.RWMutex\<close>

text \<open>
  The lock is held by one writer or by any number of readers; its zero value is free.
  \<open>Lock\<close> waits while anybody holds it and \<open>RLock\<close> waits while a writer holds it; in a
  sequential run nobody else can release it, so waiting never ends: \<open>None\<close>. \<open>Unlock\<close>
  and \<open>RUnlock\<close> of a lock that is not held that way are fatal errors: \<open>None\<close> as well.
\<close>

record rwmutex =
  writer :: bool
  readers :: nat

definition mutex_zero :: rwmutex where
  "mutex_zero = \<lparr>writer = False, readers = 0\<rparr>"

definition Lock :: "rwmutex \<Rightarrow> rwmutex option" where
  "Lock m = (if writer m then None else if readers m = 0 then Some (m\<lparr>writer := True\<rparr>) else None)"

definition Unlock :: "rwmutex \<Rightarrow> rwmutex option" where
  "Unlock m = (if writer m then Some (m\<lparr>writer := False\<rparr>) else None)"

definition RLock :: "rwmutex \<Rightarrow> rwmutex option" where
  "RLock m = (if writer m then None else Some (m\<lparr>readers := readers m + 1\<rparr>))"

definition RUnlock :: "rwmutex \<Rightarrow> rwmutex option" where
  "RUnlock m = (if readers m = 0 then None else Some (m\<lparr>readers := readers m - 1\<rparr>))"

subsection \<open>The map of clients\<close>

text \<open>
  A value of type \<^verbatim>\<open>map[time.Duration]*http.Client\<close> is the nil map or a map made by
  \<^verbatim>\<open>make\<close>. A map of pointers can hold nil under a key. \<open>lookup_clients\<close> is what the
  map holds (\<^verbatim>\<open>v, ok := m[k]\<close>), \<open>index_clients\<close> is the expression \<^verbatim>\<open>m[k]\<close>, which
  is nil at a missing key and in the nil map, and \<open>assign_clients\<close> is the statement
  \<^verbatim>\<open>m[k] = v\<close>, which panics in the nil map.
\<close>

datatype clients_map = NilMap | GoMap "duration \<rightharpoonup> client_ptr"

definition make_clients :: clients_map where
  "make_clients = GoMap Map.empty"

fun lookup_clients :: "clients_map \<Rightarrow> duration \<Rightarrow> client_ptr option" where
  "lookup_clients NilMap timeout = None"
| "lookup_clients (GoMap f) timeout = f timeout"

definition index_clients :: "clients_map \<Rightarrow> duration \<Rightarrow> client_ptr" where
  "index_clients m timeout =
     (case lookup_clients m timeout of None \<Rightarrow> None | Some client \<Rightarrow> client)"

fun assign_clients :: "clients_map \<Rightarrow> duration \<Rightarrow> client_ptr \<Rightarrow> clients_map option" where
  "assign_clients NilMap timeout client = None"
| "assign_clients (GoMap f) timeout client = Some (GoMap (f(timeout \<mapsto> client)))"

fun keys_clients :: "clients_map \<Rightarrow> duration set" where
  "keys_clients NilMap = {}"
| "keys_clients (GoMap f) = dom f"

subsection \<open>The pool\<close>

record pool =
  mtx :: rwmutex
  transport :: round_tripper
  tlsConfig :: tls_config_ptr
  clients :: clients_map

text \<open>\<^verbatim>\<open>NewClientPool\<close>: an empty map, every other field at its zero value.\<close>

definition NewClientPool :: pool where
  "NewClientPool =
     \<lparr>mtx = mutex_zero, transport = None, tlsConfig = None, clients = make_clients\<rparr>"

definition DefaultClientPool :: pool where
  "DefaultClientPool = NewClientPool"

text \<open>
  The two setters are straight-line code. Each is modelled by the list of the pool's
  states after each of its statements, so that taking and releasing the lock are steps
  that can be seen next to the writes they enclose; what the call returns is the last of
  these states.
\<close>

definition SetTransport_steps :: "round_tripper \<Rightarrow> pool \<Rightarrow> pool list option" where
  "SetTransport_steps tr p = do {
     m \<leftarrow> Lock (mtx p);
     let p1 = p\<lparr>mtx := m\<rparr>;
     let p2 = p1\<lparr>transport := tr\<rparr>;
     let p3 = p2\<lparr>clients := make_clients\<rparr>;
     m \<leftarrow> Unlock (mtx p3);
     let p4 = p3\<lparr>mtx := m\<rparr>;
     Some [p1, p2, p3, p4]
   }"

definition SetTransport :: "round_tripper \<Rightarrow> pool \<Rightarrow> pool option" where
  "SetTransport tr p = map_option (\<lambda>ss. last (p # ss)) (SetTransport_steps tr p)"

definition SetDefaultTLSConfig_steps :: "tls_config_ptr \<Rightarrow> pool \<Rightarrow> pool list option" where
  "SetDefaultTLSConfig_steps cfg p = do {
     m \<leftarrow> Lock (mtx p);
     let p1 = p\<lparr>mtx := m\<rparr>;
     let p2 = p1\<lparr>tlsConfig := cfg\<rparr>;
     let p3 = p2\<lparr>clients := make_clients\<rparr>;
     m \<leftarrow> Unlock (mtx p3);
     let p4 = p3\<lparr>mtx := m\<rparr>;
     Some [p1, p2, p3, p4]
   }"

definition SetDefaultTLSConfig :: "tls_config_ptr \<Rightarrow> pool \<Rightarrow> pool option" where
  "SetDefaultTLSConfig cfg p =
     map_option (\<lambda>ss. last (p # ss)) (SetDefaultTLSConfig_steps cfg p)"




text \<open>The transport literal that \<^verbatim>\<open>GetClient\<close> builds when the pool has none.\<close>

definition default_Transport :: "tls_config_ptr \<Rightarrow> http_Transport" where
  "default_Transport cfg =
     \<lparr>Proxy = Some ProxyFromEnvironment,
      TLSClientConfig = cfg,
      Dial = Some (Dialer_Dial \<lparr>Dialer_Timeout = 30 * Second, KeepAlive = 30 * Second\<rparr>),
      TLSHandshakeTimeout = 10 * Second\<rparr>"

text \<open>
  The block of \<^verbatim>\<open>GetClient\<close> under the write lock: look the timeout up again, and
  build, store and return a client when there is none.
\<close>

definition GetClient_block ::
    "duration \<Rightarrow> pool \<Rightarrow> heap \<Rightarrow> (client_ptr \<times> pool \<times> heap) option" where
  "GetClient_block timeout p h =
     (let client = index_clients (clients p) timeout in
      if client = None then
        let tr = transport p;
            (tr, h) = (if tr = None
                       then let (a, h) = new_Transport (default_Transport (tlsConfig p)) h
                            in (Some (TransportPtr a), h)
                       else (tr, h));
            (a, h) = new_Client \<lparr>Transport = tr, Timeout = timeout\<rparr> h;
            client = Some a
        in do {
          m \<leftarrow> assign_clients (clients p) timeout client;
          Some (client, p\<lparr>clients := m\<rparr>, h)
        }
      else Some (client, p, h))"

definition GetClient :: "duration \<Rightarrow> pool \<Rightarrow> heap \<Rightarrow> (client_ptr \<times> pool \<times> heap) option" where
  "GetClient timeout p h = do {
     m \<leftarrow> RLock (mtx p);
     let p = p\<lparr>mtx := m\<rparr>;
     let client = index_clients (clients p) timeout;
     if client \<noteq> None then do {
       m \<leftarrow> RUnlock (mtx p);
       Some (client, p\<lparr>mtx := m\<rparr>, h)
     } else do {
       m \<leftarrow> RUnlock (mtx p);
       let p = p\<lparr>mtx := m\<rparr>;
       m \<leftarrow> Lock (mtx p);
       (client, p, h) \<leftarrow> GetClient_block timeout (p\<lparr>mtx := m\<rparr>) h;
       m \<leftarrow> Unlock (mtx p);
       Some (client, p\<lparr>mtx := m\<rparr>, h)
     }
   }"

subsection \<open>Sequences of calls\<close>

text \<open>
  A caller's use of one pool is a list of calls, run in order from a state of pool and
  heap; the clients returned are dropped, the states are kept. The states that a list of
  calls reaches from \<open>NewClientPool\<close> are the ones a program can see.
\<close>

datatype call =
    Call_SetTransport round_tripper
  | Call_SetDefaultTLSConfig tls_config_ptr
  | Call_GetClient duration

fun do_call :: "call \<Rightarrow> pool \<times> heap \<Rightarrow> (pool \<times> heap) option" where
  "do_call (Call_SetTransport tr) (p, h) = map_option (\<lambda>p. (p, h)) (SetTransport tr p)"
| "do_call (Call_SetDefaultTLSConfig cfg) (p, h) =
     map_option (\<lambda>p. (p, h)) (SetDefaultTLSConfig cfg p)"
| "do_call (Call_GetClient timeout) (p, h) = map_option snd (GetClient timeout p h)"

fun run :: "call list \<Rightarrow> pool \<times> heap \<Rightarrow> (pool \<times> heap) option" where
  "run [] s = Some s"
| "run (c # cs) s = Option.bind (do_call c s) (run cs)"



fun replaces_transport :: "call \<Rightarrow> bool" where
  "replaces_transport (Call_SetTransport tr) = True"
| "replaces_transport c = False"

subsection \<open>The invariant of the cache\<close>

text \<open>
  The data model's invariant: the lock is free between calls, the map is not the nil map,
  and every entry of the map is a valid client that carries its key as timeout and was
  built from the settings the pool has now: the custom transport itself, or a default
  transport with the pool's TLS configuration.
\<close>

definition uses_settings :: "pool \<Rightarrow> heap \<Rightarrow> round_tripper \<Rightarrow> bool" where
  "uses_settings p h tr =
     (case transport p of
        Some T \<Rightarrow> tr = Some T
      | None \<Rightarrow>
          (case tr of
             Some (TransportPtr b) \<Rightarrow>
               deref_Transport h b = Some (default_Transport (tlsConfig p))
           | _ \<Rightarrow> False))"

definition client_ok :: "pool \<Rightarrow> heap \<Rightarrow> duration \<Rightarrow> client_ptr \<Rightarrow> bool" where
  "client_ok p h timeout client =
     (case client of
        None \<Rightarrow> False
      | Some a \<Rightarrow>
          (case deref_Client h a of
             None \<Rightarrow> False
           | Some c \<Rightarrow> Timeout c = timeout \<and> uses_settings p h (Transport c)))"

definition pool_inv :: "pool \<Rightarrow> heap \<Rightarrow> bool" where
  "pool_inv p h \<longleftrightarrow>
     mtx p = mutex_zero \<and> clients p \<noteq> NilMap \<and>
     (\<forall>timeout client. lookup_clients (clients p) timeout = Some client \<longrightarrow>
        client_ok p h timeout client)"

section \<open>What each operation computes\<close>

lemma index_clients_Some:
  "index_clients m t = Some a \<longleftrightarrow> lookup_clients m t = Some (Some a)"
  by (auto simp add: index_clients_def split: option.splits)

lemma index_clients_make [simp]: "index_clients make_clients t = None"
  by (simp add: index_clients_def make_clients_def)

lemma lookup_clients_make [simp]: "lookup_clients make_clients t = None"
  by (simp add: make_clients_def)

lemma GetClient_block_cached:
  "index_clients (clients p) t = Some a \<Longrightarrow> GetClient_block t p h = Some (Some a, p, h)"
  by (simp add: GetClient_block_def)

text \<open>Nothing cached, and the map was made: a client is built and stored.\<close>

lemma GetClient_block_missing:
  "index_clients (clients p) t = None \<Longrightarrow> clients p = GoMap f \<Longrightarrow>
   GetClient_block t p h = Some
     (case transport p of
        Some T \<Rightarrow>
          (Some (length (client_objs h)),
           p\<lparr>clients := GoMap (f(t \<mapsto> Some (length (client_objs h))))\<rparr>,
           h\<lparr>client_objs := client_objs h @ [\<lparr>Transport = Some T, Timeout = t\<rparr>]\<rparr>)
      | None \<Rightarrow>
          (Some (length (client_objs h)),
           p\<lparr>clients := GoMap (f(t \<mapsto> Some (length (client_objs h))))\<rparr>,
           h\<lparr>transport_objs := transport_objs h @ [default_Transport (tlsConfig p)],
             client_objs := client_objs h @
               [\<lparr>Transport = Some (TransportPtr (length (transport_objs h))), Timeout = t\<rparr>]\<rparr>))"
  by (simp add: GetClient_block_def new_Client_def new_Transport_def Let_def
      split: option.splits)

text \<open>In the nil map nothing is cached, and storing the new client panics.\<close>

lemma GetClient_block_NilMap:
  "clients p = NilMap \<Longrightarrow> GetClient_block t p h = None"
  by (simp add: GetClient_block_def index_clients_def new_Client_def new_Transport_def Let_def
      split: prod.splits)

lemma GetClient_block_Some_GoMap:
  "GetClient_block t p h = Some r \<Longrightarrow> index_clients (clients p) t = None \<Longrightarrow>
   \<exists>f. clients p = GoMap f"
  by (cases "clients p") (simp_all add: GetClient_block_NilMap)

lemma GetClient_cached:
  "\<not> writer (mtx p) \<Longrightarrow> index_clients (clients p) t = Some a \<Longrightarrow>
   GetClient t p h = Some (Some a, p, h)"
  by (simp add: GetClient_def RLock_def RUnlock_def)

lemma GetClient_missing:
  assumes "\<not> writer (mtx p)" and "readers (mtx p) = 0"
    and "index_clients (clients p) t = None"
  shows "GetClient t p h = GetClient_block t p h"
proof -
  from assms(1,2) have free: "mtx p = \<lparr>writer = False, readers = 0\<rparr>"
    by (cases "mtx p") simp
  then have locked: "GetClient t p h =
      Option.bind (GetClient_block t (p\<lparr>mtx := \<lparr>writer = True, readers = 0\<rparr>\<rparr>) h)
        (\<lambda>(client, p, h).
            Option.bind (Unlock (mtx p)) (\<lambda>m. Some (client, p\<lparr>mtx := m\<rparr>, h)))"
    using assms(3) by (simp add: GetClient_def RLock_def RUnlock_def Lock_def)
  show ?thesis
  proof (cases "clients p")
    case NilMap
    then show ?thesis by (simp add: locked GetClient_block_NilMap)
  next
    case (GoMap f)
    have "q\<lparr>mtx := \<lparr>writer = False, readers = 0\<rparr>\<rparr> = q" if "mtx q = mtx p" for q :: pool
      using that free by (cases q) simp
    with assms(3) GoMap show ?thesis
      by (simp add: locked GetClient_block_missing Unlock_def split: option.splits)
  qed
qed

lemma GetClient_Some:
  assumes "GetClient t p h = Some r"
  shows "\<not> writer (mtx p) \<and>
   (case index_clients (clients p) t of
      Some a \<Rightarrow> r = (Some a, p, h)
    | None \<Rightarrow> readers (mtx p) = 0 \<and> GetClient_block t p h = Some r)"
proof -
  from assms have w: "\<not> writer (mtx p)"
    by (auto simp add: GetClient_def RLock_def split: bind_splits if_splits)
  show ?thesis
  proof (cases "index_clients (clients p) t")
    case (Some a)
    with w assms show ?thesis by (simp add: GetClient_cached)
  next
    case None
    from assms None w have r: "readers (mtx p) = 0"
      by (auto simp add: GetClient_def RLock_def RUnlock_def Lock_def
          split: bind_splits if_splits)
    with w None assms show ?thesis by (simp add: GetClient_missing)
  qed
qed

lemma SetTransport_steps_Some:
  "SetTransport_steps tr p = Some ss \<longleftrightarrow>
   \<not> writer (mtx p) \<and> readers (mtx p) = 0 \<and>
   ss = [p\<lparr>mtx := (mtx p)\<lparr>writer := True\<rparr>\<rparr>,
         p\<lparr>mtx := (mtx p)\<lparr>writer := True\<rparr>, transport := tr\<rparr>,
         p\<lparr>mtx := (mtx p)\<lparr>writer := True\<rparr>, transport := tr, clients := make_clients\<rparr>,
         p\<lparr>transport := tr, clients := make_clients\<rparr>]"
  by (auto simp add: SetTransport_steps_def Lock_def Unlock_def Let_def
      split: bind_splits if_splits)

lemma SetDefaultTLSConfig_steps_Some:
  "SetDefaultTLSConfig_steps cfg p = Some ss \<longleftrightarrow>
   \<not> writer (mtx p) \<and> readers (mtx p) = 0 \<and>
   ss = [p\<lparr>mtx := (mtx p)\<lparr>writer := True\<rparr>\<rparr>,
         p\<lparr>mtx := (mtx p)\<lparr>writer := True\<rparr>, tlsConfig := cfg\<rparr>,
         p\<lparr>mtx := (mtx p)\<lparr>writer := True\<rparr>, tlsConfig := cfg, clients := make_clients\<rparr>,
         p\<lparr>tlsConfig := cfg, clients := make_clients\<rparr>]"
  by (auto simp add: SetDefaultTLSConfig_steps_def Lock_def Unlock_def Let_def
      split: bind_splits if_splits)

lemma SetTransport_Some:
  "SetTransport tr p = Some p' \<longleftrightarrow>
   \<not> writer (mtx p) \<and> readers (mtx p) = 0 \<and> p' = p\<lparr>transport := tr, clients := make_clients\<rparr>"
  by (auto simp add: SetTransport_def SetTransport_steps_Some)

lemma SetDefaultTLSConfig_Some:
  "SetDefaultTLSConfig cfg p = Some p' \<longleftrightarrow>
   \<not> writer (mtx p) \<and> readers (mtx p) = 0 \<and> p' = p\<lparr>tlsConfig := cfg, clients := make_clients\<rparr>"
  by (auto simp add: SetDefaultTLSConfig_def SetDefaultTLSConfig_steps_Some)

section \<open>The invariant holds in every reachable state\<close>

lemma client_ok_Some:
  "client_ok p h t c \<longleftrightarrow>
   (\<exists>a cl. c = Some a \<and> a < length (client_objs h) \<and> client_objs h ! a = cl \<and>
      deref_Client h a = Some cl \<and> Timeout cl = t \<and> uses_settings p h (Transport cl))"
  by (auto simp add: client_ok_def deref_Client_def split: option.splits)

lemma pool_inv_New: "pool_inv NewClientPool h"
  by (simp add: pool_inv_def NewClientPool_def make_clients_def)

lemma pool_inv_SetTransport:
  "pool_inv p h \<Longrightarrow> SetTransport tr p = Some p' \<Longrightarrow> pool_inv p' h"
  by (simp add: SetTransport_Some pool_inv_def make_clients_def)

lemma pool_inv_SetDefaultTLSConfig:
  "pool_inv p h \<Longrightarrow> SetDefaultTLSConfig cfg p = Some p' \<Longrightarrow> pool_inv p' h"
  by (simp add: SetDefaultTLSConfig_Some pool_inv_def make_clients_def)


lemma uses_settings_grow:
  "uses_settings p h tr \<Longrightarrow> transport p' = transport p \<Longrightarrow> tlsConfig p' = tlsConfig p \<Longrightarrow>
   prefix (transport_objs h) (transport_objs h') \<Longrightarrow> uses_settings p' h' tr"
  by (auto simp add: uses_settings_def deref_Transport_def prefix_def nth_append
      split: option.splits round_tripper_ref.splits if_splits)

lemma client_ok_grow:
  "client_ok p h t c \<Longrightarrow> transport p' = transport p \<Longrightarrow> tlsConfig p' = tlsConfig p \<Longrightarrow>
   prefix (client_objs h) (client_objs h') \<Longrightarrow>
   prefix (transport_objs h) (transport_objs h') \<Longrightarrow> client_ok p' h' t c"
  by (auto simp add: client_ok_def deref_Client_def prefix_def nth_append
      split: option.splits if_splits intro: uses_settings_grow[unfolded prefix_def])

lemma GetClient_block_frame:
  assumes "GetClient_block t p h = Some (c, p', h')"
  shows "mtx p' = mtx p \<and> transport p' = transport p \<and> tlsConfig p' = tlsConfig p \<and>
   prefix (client_objs h) (client_objs h') \<and> prefix (transport_objs h) (transport_objs h')"
proof (cases "index_clients (clients p) t")
  case (Some a)
  with assms show ?thesis by (simp add: GetClient_block_cached)
next
  case None
  from GetClient_block_Some_GoMap[OF assms None] obtain f where "clients p = GoMap f" ..
  from assms show ?thesis
    unfolding GetClient_block_missing[OF None \<open>clients p = GoMap f\<close>]
    by (auto split: option.splits)
qed

lemma GetClient_block_new_ok:
  assumes None: "index_clients (clients p) t = None"
    and blk: "GetClient_block t p h = Some (c, p', h')"
  shows "client_ok p' h' t c \<and> (\<exists>f. clients p = GoMap f \<and> clients p' = GoMap (f(t \<mapsto> c)))"
proof -
  from GetClient_block_Some_GoMap[OF blk None] obtain f where f: "clients p = GoMap f" ..
  from blk f show ?thesis
    unfolding GetClient_block_missing[OF None f]
    by (auto simp add: client_ok_def uses_settings_def deref_Client_def deref_Transport_def
        nth_append split: option.splits)
qed

lemma pool_inv_GetClient:
  assumes inv: "pool_inv p h" and get: "GetClient t p h = Some (c, p', h')"
  shows "pool_inv p' h' \<and> client_ok p' h' t c \<and> lookup_clients (clients p') t = Some c"
proof (cases "index_clients (clients p) t")
  case (Some a)
  with get have eq: "c = Some a" "p' = p" "h' = h"
    using GetClient_Some[OF get] by simp_all
  from Some have "lookup_clients (clients p) t = Some (Some a)"
    by (simp add: index_clients_Some)
  with inv eq show ?thesis
    by (simp add: pool_inv_def)
next
  case None
  with GetClient_Some[OF get] have blk: "GetClient_block t p h = Some (c, p', h')"
    by simp
  note fr = GetClient_block_frame[OF blk]
  from GetClient_block_new_ok[OF None blk] obtain f where ok: "client_ok p' h' t c"
    and f: "clients p = GoMap f" and f': "clients p' = GoMap (f(t \<mapsto> c))"
    by blast
  have "client_ok p' h' t' c'" if "lookup_clients (clients p') t' = Some c'" for t' c'
  proof (cases "t' = t")
    case True
    with that ok f' show ?thesis by simp
  next
    case False
    with that f f' have "lookup_clients (clients p) t' = Some c'" by simp
    with inv have "client_ok p h t' c'" by (simp add: pool_inv_def)
    with fr show ?thesis by (blast intro: client_ok_grow)
  qed
  with inv fr ok f' show ?thesis
    by (simp add: pool_inv_def)
qed

lemma pool_inv_do_call:
  "pool_inv p h \<Longrightarrow> do_call c (p, h) = Some (p', h') \<Longrightarrow> pool_inv p' h'"
  by (cases c) (auto dest: pool_inv_SetTransport pool_inv_SetDefaultTLSConfig pool_inv_GetClient)

lemma pool_inv_run:
  "pool_inv p h \<Longrightarrow> run cs (p, h) = Some (p', h') \<Longrightarrow> pool_inv p' h'"
proof (induction cs arbitrary: p h)
  case Nil
  then show ?case by simp
next
  case (Cons c cs)
  from Cons.prems(2) obtain p1 h1 where
    step: "do_call c (p, h) = Some (p1, h1)" and rest: "run cs (p1, h1) = Some (p', h')"
    by (auto simp add: bind_eq_Some_conv)
  from Cons.prems(1) step have "pool_inv p1 h1" by (rule pool_inv_do_call)
  then show ?case using rest by (rule Cons.IH)
qed

lemma reachable_inv:
  "run cs (NewClientPool, h0) = Some (p, h) \<Longrightarrow> pool_inv p h"
  by (rule pool_inv_run[OF pool_inv_New])

lemma pool_inv_after_SetTransport:
  "SetTransport tr p = Some p1 \<Longrightarrow> pool_inv p1 h \<and> transport p1 = tr"
  by (cases "mtx p") (simp add: SetTransport_Some pool_inv_def mutex_zero_def make_clients_def)

section \<open>Calls return while the invariant holds\<close>

lemma GetClient_total:
  assumes "mtx p = mutex_zero" and "clients p \<noteq> NilMap"
  shows "\<exists>a p' h'. GetClient t p h = Some (Some a, p', h')"
proof (cases "index_clients (clients p) t")
  case (Some a)
  with assms(1) show ?thesis by (simp add: GetClient_cached mutex_zero_def)
next
  case None
  from assms(2) obtain f where "clients p = GoMap f" by (cases "clients p") simp_all
  with None assms(1) show ?thesis
    by (simp add: GetClient_missing GetClient_block_missing mutex_zero_def split: option.splits)
qed

lemma do_call_total:
  assumes "pool_inv p h"
  shows "\<exists>p' h'. do_call c (p, h) = Some (p', h')"
proof (cases c)
  case (Call_GetClient t)
  from assms have "mtx p = mutex_zero" "clients p \<noteq> NilMap"
    by (simp_all add: pool_inv_def)
  from GetClient_total[OF this] Call_GetClient show ?thesis by fastforce
next
  case (Call_SetTransport tr)
  with assms show ?thesis
    by (simp add: SetTransport_Some pool_inv_def mutex_zero_def)
next
  case (Call_SetDefaultTLSConfig cfg)
  with assms show ?thesis
    by (simp add: SetDefaultTLSConfig_Some pool_inv_def mutex_zero_def)
qed

lemma run_total:
  "pool_inv p h \<Longrightarrow> \<exists>p' h'. run cs (p, h) = Some (p', h')"
proof (induction cs arbitrary: p h)
  case Nil
  then show ?case by simp
next
  case (Cons c cs)
  from do_call_total[OF Cons.prems] obtain p1 h1 where
    step: "do_call c (p, h) = Some (p1, h1)"
    by blast
  from pool_inv_do_call[OF Cons.prems step] have "pool_inv p1 h1" .
  from Cons.IH[OF this] step show ?case by simp
qed

section \<open>Fields and heap across calls\<close>

lemma GetClient_fields:
  assumes "GetClient t p h = Some (c, p', h')"
  shows "mtx p' = mtx p \<and> transport p' = transport p \<and> tlsConfig p' = tlsConfig p \<and>
    prefix (client_objs h) (client_objs h') \<and> prefix (transport_objs h) (transport_objs h')"
proof (cases "index_clients (clients p) t")
  case None
  with GetClient_Some[OF assms] have "GetClient_block t p h = Some (c, p', h')" by simp
  from GetClient_block_frame[OF this] show ?thesis by simp
next
  case (Some b)
  with GetClient_Some[OF assms] show ?thesis by simp
qed



lemma do_call_transport:
  "do_call c (p, h) = Some (p', h') \<Longrightarrow> \<not> replaces_transport c \<Longrightarrow> transport p' = transport p"
  by (cases c) (auto simp add: SetDefaultTLSConfig_Some dest: GetClient_fields)

lemma run_transport:
  "run cs (p, h) = Some (p', h') \<Longrightarrow> \<forall>c \<in> set cs. \<not> replaces_transport c \<Longrightarrow>
   transport p' = transport p"
proof (induction cs arbitrary: p h)
  case Nil
  then show ?case by simp
next
  case (Cons c cs)
  from Cons.prems(1) obtain p1 h1 where
    step: "do_call c (p, h) = Some (p1, h1)" and rest: "run cs (p1, h1) = Some (p', h')"
    by (auto simp add: bind_eq_Some_conv)
  from Cons.prems(2) have "\<not> replaces_transport c" "\<forall>c \<in> set cs. \<not> replaces_transport c"
    by simp_all
  with do_call_transport[OF step] Cons.IH[OF rest] show ?case by simp
qed





section \<open>The claims\<close>

text \<open>The definitions a concrete run is evaluated with.\<close>

lemmas pool_defs =
  GetClient_def GetClient_block_def SetTransport_def SetTransport_steps_def
  SetDefaultTLSConfig_def SetDefaultTLSConfig_steps_def RLock_def RUnlock_def Lock_def
  Unlock_def NewClientPool_def mutex_zero_def empty_heap_def make_clients_def
  index_clients_def new_Client_def new_Transport_def Let_def





text \<open>
  C3. For every timeout \<open>t\<close>, zero and negative ones included, the client that
  \<open>GetClient t\<close> returns has the field \<open>Timeout\<close> equal to \<open>t\<close>, on every pool that calls of
  the interface reach from \<open>NewClientPool\<close>; the call does return a client. On a new pool,
  \<open>GetClient\<close> of 10 nanoseconds returns a client whose timeout is 10 nanoseconds.
\<close>

theorem GetClient_Timeout:
  assumes reach: "run cs (NewClientPool, h0) = Some (p, h)"
  shows "\<exists>a p' h' cl. GetClient t p h = Some (Some a, p', h') \<and>
           deref_Client h' a = Some cl \<and> Timeout cl = t"
proof -
  from reach have inv: "pool_inv p h" by (rule reachable_inv)
  then obtain a p' h' where get: "GetClient t p h = Some (Some a, p', h')"
    using GetClient_total[of p t h] by (auto simp add: pool_inv_def)
  from pool_inv_GetClient[OF inv get] have "client_ok p' h' t (Some a)" by simp
  with get show ?thesis
    by (auto simp add: client_ok_Some)
qed

theorem GetClient_Timeout_witness:
  "run [] (NewClientPool, empty_heap) = Some (NewClientPool, empty_heap) \<and>
   (\<exists>a p' h' cl. GetClient (10 * Nanosecond) NewClientPool empty_heap = Some (Some a, p', h') \<and>
      deref_Client h' a = Some cl \<and> Timeout cl = 10 * Nanosecond \<and> sint (Timeout cl) = 10)"
proof -
  have reach: "run [] (NewClientPool, empty_heap) = Some (NewClientPool, empty_heap)"
    by simp
  from GetClient_Timeout[OF reach, of "10 * Nanosecond"] reach show ?thesis
    by (auto simp add: Nanosecond_def)
qed

text \<open>
  C4. When \<open>GetClient t\<close> builds a client (nothing is cached for \<open>t\<close>) and the pool's
  transport is nil, the client's transport is a \<^verbatim>\<open>*http.Transport\<close> that did not exist
  before the call, with the proxy taken from the environment, the pool's current TLS
  configuration, a dialer with a timeout of 30 seconds and a keep-alive of 30 seconds, and
  a TLS handshake timeout of 10 seconds (durations in nanoseconds). The call returns this
  client whenever the lock is free and the map is not the nil map, as they are in every
  state that calls of the interface reach from \<open>NewClientPool\<close>.
\<close>

theorem default_transport_built:
  assumes free: "mtx p = mutex_zero"
    and made: "clients p \<noteq> NilMap"
    and nil: "transport p = None"
    and missing: "index_clients (clients p) t = None"
  shows "\<exists>a p' h' cl b. GetClient t p h = Some (Some a, p', h') \<and>
           deref_Client h' a = Some cl \<and>
           Transport cl = Some (TransportPtr b) \<and>
           deref_Transport h b = None \<and>
           deref_Transport h' b = Some
             \<lparr>Proxy = Some ProxyFromEnvironment,
              TLSClientConfig = tlsConfig p,
              Dial = Some (Dialer_Dial
                \<lparr>Dialer_Timeout = 30000000000, KeepAlive = 30000000000\<rparr>),
              TLSHandshakeTimeout = 10000000000\<rparr>"
proof -
  from made obtain f where f: "clients p = GoMap f" by (cases "clients p") simp_all
  define h' where "h' = h\<lparr>transport_objs := transport_objs h @ [default_Transport (tlsConfig p)],
             client_objs := client_objs h @
               [\<lparr>Transport = Some (TransportPtr (length (transport_objs h))), Timeout = t\<rparr>]\<rparr>"
  from free missing f nil have get: "GetClient t p h =
      Some (Some (length (client_objs h)),
            p\<lparr>clients := GoMap (f(t \<mapsto> Some (length (client_objs h))))\<rparr>, h')"
    by (simp add: GetClient_missing GetClient_block_missing mutex_zero_def h'_def)
  have "deref_Client h' (length (client_objs h)) =
          Some \<lparr>Transport = Some (TransportPtr (length (transport_objs h))), Timeout = t\<rparr>"
    by (simp add: h'_def deref_Client_def)
  moreover have "deref_Transport h (length (transport_objs h)) = None"
    by (simp add: deref_Transport_def)
  moreover have "deref_Transport h' (length (transport_objs h)) = Some
             \<lparr>Proxy = Some ProxyFromEnvironment,
              TLSClientConfig = tlsConfig p,
              Dial = Some (Dialer_Dial
                \<lparr>Dialer_Timeout = 30000000000, KeepAlive = 30000000000\<rparr>),
              TLSHandshakeTimeout = 10000000000\<rparr>"
    by (simp add: h'_def deref_Transport_def default_Transport_def Second_def Nanosecond_def)
  ultimately show ?thesis using get by simp
qed

theorem default_transport_built_witness:
  "mtx (NewClientPool\<lparr>tlsConfig := Some 3\<rparr>) = mutex_zero \<and>
   clients (NewClientPool\<lparr>tlsConfig := Some 3\<rparr>) \<noteq> NilMap \<and>
   transport (NewClientPool\<lparr>tlsConfig := Some 3\<rparr>) = None \<and>
   index_clients (clients (NewClientPool\<lparr>tlsConfig := Some 3\<rparr>)) 0 = None \<and>
   (\<exists>a p' h' cl b.
      GetClient 0 (NewClientPool\<lparr>tlsConfig := Some 3\<rparr>) empty_heap = Some (Some a, p', h') \<and>
      deref_Client h' a = Some cl \<and>
      Transport cl = Some (TransportPtr b) \<and>
      deref_Transport empty_heap b = None \<and>
      deref_Transport h' b = Some
        \<lparr>Proxy = Some ProxyFromEnvironment, TLSClientConfig = Some 3,
         Dial = Some (Dialer_Dial \<lparr>Dialer_Timeout = 30000000000, KeepAlive = 30000000000\<rparr>),
         TLSHandshakeTimeout = 10000000000\<rparr>)"
proof -
  have free: "mtx (NewClientPool\<lparr>tlsConfig := Some 3\<rparr>) = mutex_zero"
    by (simp add: NewClientPool_def)
  have made: "clients (NewClientPool\<lparr>tlsConfig := Some 3\<rparr>) \<noteq> NilMap"
    by (simp add: NewClientPool_def make_clients_def)
  have nil: "transport (NewClientPool\<lparr>tlsConfig := Some 3\<rparr>) = None"
    by (simp add: NewClientPool_def)
  have missing: "index_clients (clients (NewClientPool\<lparr>tlsConfig := Some 3\<rparr>)) 0 = None"
    by (simp add: NewClientPool_def)
  have cfg: "tlsConfig (NewClientPool\<lparr>tlsConfig := Some 3\<rparr>) = Some 3"
    by simp
  from default_transport_built[OF free made nil missing, of empty_heap] free made nil missing
  show ?thesis unfolding cfg by simp
qed

text \<open>
  C5. Once \<open>SetTransport\<close> has set a transport \<open>T\<close> that is not nil, and as long as no
  later call replaces it (any calls of \<open>GetClient\<close> and \<open>SetDefaultTLSConfig\<close> may follow),
  every client that \<open>GetClient\<close> returns has the field \<open>Transport\<close> equal to \<open>T\<close> itself:
  the same reference, neither a copy nor a wrapper. On every pool that calls of the
  interface reach from \<open>NewClientPool\<close>, the call of \<open>SetTransport\<close> returns, the later
  calls run to their end and leave \<open>T\<close> as the pool's transport, and \<open>GetClient t\<close> then
  returns a client with transport \<open>T\<close>, for every \<open>t\<close>. Every client in the map was built
  after \<open>T\<close> was set, so this holds for the clients built now and the cached ones alike.
\<close>

theorem custom_transport_reused:
  assumes reach: "run cs0 (NewClientPool, h0) = Some (p0, h)"
    and kept: "\<forall>c \<in> set cs. \<not> replaces_transport c"
  shows "\<exists>p1 p h1 a p' h' cl.
           SetTransport (Some T) p0 = Some p1 \<and>
           run cs (p1, h) = Some (p, h1) \<and> transport p = Some T \<and>
           GetClient t p h1 = Some (Some a, p', h') \<and>
           deref_Client h' a = Some cl \<and> Transport cl = Some T"
proof -
  from reach have inv0: "pool_inv p0 h" by (rule reachable_inv)
  then obtain p1 where set: "SetTransport (Some T) p0 = Some p1"
    by (simp add: SetTransport_Some pool_inv_def mutex_zero_def)
  from pool_inv_after_SetTransport[OF set] have inv1: "pool_inv p1 h"
    and T1: "transport p1 = Some T"
    by simp_all
  from run_total[OF inv1] obtain p h1 where later: "run cs (p1, h) = Some (p, h1)"
    by blast
  from inv1 later have inv: "pool_inv p h1" by (rule pool_inv_run)
  from run_transport[OF later kept] T1 have T: "transport p = Some T" by simp
  from inv obtain a p' h' where get: "GetClient t p h1 = Some (Some a, p', h')"
    using GetClient_total[of p t h1] by (auto simp add: pool_inv_def)
  from pool_inv_GetClient[OF inv get] have ok: "client_ok p' h' t (Some a)" by simp
  from GetClient_fields[OF get] T have "transport p' = Some T" by simp
  with ok obtain cl where "deref_Client h' a = Some cl" "Transport cl = Some T"
    by (auto simp add: client_ok_Some uses_settings_def)
  with set later T get show ?thesis by blast
qed

theorem custom_transport_reused_witness:
  "run [Call_GetClient 5] (NewClientPool, empty_heap) =
     Some (\<lparr>mtx = \<lparr>writer = False, readers = 0\<rparr>, transport = None, tlsConfig = None,
            clients = GoMap [5 \<mapsto> Some 0]\<rparr>,
           \<lparr>client_objs = [\<lparr>Transport = Some (TransportPtr 0), Timeout = 5\<rparr>],
            transport_objs = [default_Transport None]\<rparr>) \<and>
   \<not> replaces_transport (Call_GetClient 5) \<and>
   \<not> replaces_transport (Call_SetDefaultTLSConfig (Some 2)) \<and>
   (\<exists>p1 p h1 a p' h' cl.
      SetTransport (Some (External 1))
        \<lparr>mtx = \<lparr>writer = False, readers = 0\<rparr>, transport = None, tlsConfig = None,
         clients = GoMap [5 \<mapsto> Some 0]\<rparr> = Some p1 \<and>
      run [Call_GetClient 5, Call_SetDefaultTLSConfig (Some 2)]
        (p1, \<lparr>client_objs = [\<lparr>Transport = Some (TransportPtr 0), Timeout = 5\<rparr>],
              transport_objs = [default_Transport None]\<rparr>) = Some (p, h1) \<and>
      transport p = Some (External 1) \<and>
      GetClient 5 p h1 = Some (Some a, p', h') \<and>
      deref_Client h' a = Some cl \<and> Transport cl = Some (External 1))"
proof -
  have reach: "run [Call_GetClient 5] (NewClientPool, empty_heap) =
     Some (\<lparr>mtx = \<lparr>writer = False, readers = 0\<rparr>, transport = None, tlsConfig = None,
            clients = GoMap [5 \<mapsto> Some 0]\<rparr>,
           \<lparr>client_objs = [\<lparr>Transport = Some (TransportPtr 0), Timeout = 5\<rparr>],
            transport_objs = [default_Transport None]\<rparr>)"
    by (simp add: pool_defs)
  have kept: "\<forall>c \<in> set [Call_GetClient 5, Call_SetDefaultTLSConfig (Some 2)].
      \<not> replaces_transport c"
    by simp
  from custom_transport_reused[OF reach kept, of "External 1" 5] reach show ?thesis
    by simp
qed

text \<open>
  C6. While a transport that is not nil is set, the TLS configuration has no influence on
  what \<open>GetClient\<close> does: two pools that differ in the field \<open>tlsConfig\<close> only give, for
  every timeout and on the same heap, the same outcome: the same client pointer and the
  same heap (so the same transport and timeout in the client), and pools that again differ
  in \<open>tlsConfig\<close> only, so that the same holds for every later call of \<open>GetClient\<close>.
\<close>

theorem tlsConfig_unused_with_custom_transport:
  assumes "transport p = Some T"
  shows "GetClient t (p\<lparr>tlsConfig := cfg\<rparr>) h =
           map_option (\<lambda>(c, p', h'). (c, p'\<lparr>tlsConfig := cfg\<rparr>, h')) (GetClient t p h)"
proof (cases "writer (mtx p)")
  case True
  then show ?thesis by (simp add: GetClient_def RLock_def)
next
  case w: False
  show ?thesis
  proof (cases "index_clients (clients p) t")
    case (Some a)
    with w show ?thesis by (simp add: GetClient_cached)
  next
    case None
    show ?thesis
    proof (cases "readers (mtx p) = 0")
      case True
      show ?thesis
      proof (cases "clients p")
        case NilMap
        with w None True show ?thesis
          by (simp add: GetClient_missing GetClient_block_NilMap)
      next
        case (GoMap f)
        with w None True assms show ?thesis
          by (simp add: GetClient_missing GetClient_block_missing)
      qed
    next
      case False
      with w None show ?thesis
        by (simp add: GetClient_def RLock_def RUnlock_def Lock_def)
    qed
  qed
qed

theorem tlsConfig_unused_with_custom_transport_witness:
  "transport (NewClientPool\<lparr>transport := Some (External 1)\<rparr>) = Some (External 1) \<and>
   GetClient 10 (NewClientPool\<lparr>transport := Some (External 1)\<rparr>) empty_heap =
     Some (Some 0,
       \<lparr>mtx = \<lparr>writer = False, readers = 0\<rparr>, transport = Some (External 1),
        tlsConfig = None, clients = GoMap [10 \<mapsto> Some 0]\<rparr>,
       \<lparr>client_objs = [\<lparr>Transport = Some (External 1), Timeout = 10\<rparr>], transport_objs = []\<rparr>) \<and>
   GetClient 10 (NewClientPool\<lparr>transport := Some (External 1), tlsConfig := Some 2\<rparr>) empty_heap =
     Some (Some 0,
       \<lparr>mtx = \<lparr>writer = False, readers = 0\<rparr>, transport = Some (External 1),
        tlsConfig = Some 2, clients = GoMap [10 \<mapsto> Some 0]\<rparr>,
       \<lparr>client_objs = [\<lparr>Transport = Some (External 1), Timeout = 10\<rparr>], transport_objs = []\<rparr>)"
proof -
  have custom: "transport (NewClientPool\<lparr>transport := Some (External 1)\<rparr>) = Some (External 1)"
    by simp
  have get: "GetClient 10 (NewClientPool\<lparr>transport := Some (External 1)\<rparr>) empty_heap =
     Some (Some 0,
       \<lparr>mtx = \<lparr>writer = False, readers = 0\<rparr>, transport = Some (External 1),
        tlsConfig = None, clients = GoMap [10 \<mapsto> Some 0]\<rparr>,
       \<lparr>client_objs = [\<lparr>Transport = Some (External 1), Timeout = 10\<rparr>], transport_objs = []\<rparr>)"
    by (simp add: pool_defs)
  from tlsConfig_unused_with_custom_transport[OF custom, of 10 "Some 2" empty_heap] custom get
  show ?thesis by simp
qed



text \<open>
  C8. \<open>GetClient t\<close> removes and replaces no entry of the cache. The call leaves the
  fields \<open>transport\<close> and \<open>tlsConfig\<close> as they were, and the entry of every timeout other
  than \<open>t\<close> as it was, present or absent; a client cached under \<open>t\<close> itself stays; no key
  leaves the map; and in every state that calls of the interface reach from
  \<open>NewClientPool\<close> every entry of the map before the call is an entry of the map after
  it. The objects already in the heap stay as they were. (Only the two setters put an
  empty map in the place of the old one.)
\<close>

theorem GetClient_frame:
  assumes get: "GetClient t p h = Some (c, p', h')"
  shows "transport p' = transport p \<and> tlsConfig p' = tlsConfig p \<and>
         (\<forall>t'. t' \<noteq> t \<longrightarrow> lookup_clients (clients p') t' = lookup_clients (clients p) t') \<and>
         (\<forall>a. lookup_clients (clients p) t = Some (Some a) \<longrightarrow>
              lookup_clients (clients p') t = Some (Some a)) \<and>
         keys_clients (clients p) \<subseteq> keys_clients (clients p') \<and>
         (\<forall>cs h0. run cs (NewClientPool, h0) = Some (p, h) \<longrightarrow>
            (\<forall>t' x. lookup_clients (clients p) t' = Some x \<longrightarrow>
               lookup_clients (clients p') t' = Some x)) \<and>
         prefix (client_objs h) (client_objs h') \<and>
         prefix (transport_objs h) (transport_objs h')"
proof (cases "index_clients (clients p) t")
  case (Some a)
  with GetClient_Some[OF get] show ?thesis by simp
next
  case None
  with GetClient_Some[OF get] have blk: "GetClient_block t p h = Some (c, p', h')" by simp
  from GetClient_block_new_ok[OF None blk] obtain f where f: "clients p = GoMap f"
    and f': "clients p' = GoMap (f(t \<mapsto> c))"
    by blast
  from None have nocl: "lookup_clients (clients p) t \<noteq> Some (Some a)" for a
    by (simp add: index_clients_def split: option.splits)
  have "lookup_clients (clients p') t' = Some x"
    if "run cs (NewClientPool, h0) = Some (p, h)" and x: "lookup_clients (clients p) t' = Some x"
    for cs h0 t' x
  proof -
    from that(1) have inv: "pool_inv p h" by (rule reachable_inv)
    with x have "client_ok p h t' x" by (simp add: pool_inv_def)
    with x nocl have "t' \<noteq> t" by (auto simp add: client_ok_Some)
    with x f f' show ?thesis by simp
  qed
  with GetClient_block_frame[OF blk] f f' nocl show ?thesis
    by auto
qed

theorem GetClient_frame_witness:
  "GetClient 5
       \<lparr>mtx = \<lparr>writer = False, readers = 0\<rparr>, transport = Some (External 1),
        tlsConfig = Some 2, clients = GoMap [10 \<mapsto> Some 0]\<rparr>
       \<lparr>client_objs = [\<lparr>Transport = Some (External 1), Timeout = 10\<rparr>], transport_objs = []\<rparr> =
     Some (Some 1,
       \<lparr>mtx = \<lparr>writer = False, readers = 0\<rparr>, transport = Some (External 1),
        tlsConfig = Some 2, clients = GoMap [10 \<mapsto> Some 0, 5 \<mapsto> Some 1]\<rparr>,
       \<lparr>client_objs = [\<lparr>Transport = Some (External 1), Timeout = 10\<rparr>,
                       \<lparr>Transport = Some (External 1), Timeout = 5\<rparr>],
        transport_objs = []\<rparr>) \<and>
   run [Call_SetTransport (Some (External 1)), Call_SetDefaultTLSConfig (Some 2),
        Call_GetClient 10] (NewClientPool, empty_heap) =
     Some (\<lparr>mtx = \<lparr>writer = False, readers = 0\<rparr>, transport = Some (External 1),
            tlsConfig = Some 2, clients = GoMap [10 \<mapsto> Some 0]\<rparr>,
           \<lparr>client_objs = [\<lparr>Transport = Some (External 1), Timeout = 10\<rparr>],
            transport_objs = []\<rparr>) \<and>
   (5 :: duration) \<noteq> 10 \<and>
   lookup_clients (GoMap [10 \<mapsto> Some 0]) 10 = Some (Some 0) \<and>
   lookup_clients (GoMap [10 \<mapsto> Some 0, 5 \<mapsto> Some 1]) 10 = Some (Some 0) \<and>
   keys_clients (GoMap [10 \<mapsto> Some 0]) \<subseteq> keys_clients (GoMap [10 \<mapsto> Some 0, 5 \<mapsto> Some 1])"
proof -
  have get: "GetClient 5
       \<lparr>mtx = \<lparr>writer = False, readers = 0\<rparr>, transport = Some (External 1),
        tlsConfig = Some 2, clients = GoMap [10 \<mapsto> Some 0]\<rparr>
       \<lparr>client_objs = [\<lparr>Transport = Some (External 1), Timeout = 10\<rparr>], transport_objs = []\<rparr> =
     Some (Some 1,
       \<lparr>mtx = \<lparr>writer = False, readers = 0\<rparr>, transport = Some (External 1),
        tlsConfig = Some 2, clients = GoMap [10 \<mapsto> Some 0, 5 \<mapsto> Some 1]\<rparr>,
       \<lparr>client_objs = [\<lparr>Transport = Some (External 1), Timeout = 10\<rparr>,
                       \<lparr>Transport = Some (External 1), Timeout = 5\<rparr>],
        transport_objs = []\<rparr>)"
    by (simp add: pool_defs)
  have reach: "run [Call_SetTransport (Some (External 1)), Call_SetDefaultTLSConfig (Some 2),
         Call_GetClient 10] (NewClientPool, empty_heap) =
     Some (\<lparr>mtx = \<lparr>writer = False, readers = 0\<rparr>, transport = Some (External 1),
            tlsConfig = Some 2, clients = GoMap [10 \<mapsto> Some 0]\<rparr>,
           \<lparr>client_objs = [\<lparr>Transport = Some (External 1), Timeout = 10\<rparr>],
            transport_objs = []\<rparr>)"
    by (simp add: pool_defs)
  have before: "lookup_clients (clients
       \<lparr>mtx = \<lparr>writer = False, readers = 0\<rparr>, transport = Some (External 1),
        tlsConfig = Some 2, clients = GoMap [10 \<mapsto> Some 0]\<rparr>) 10 = Some (Some 0)"
    by simp
  from GetClient_frame[OF get] reach before
  have "lookup_clients (clients
       \<lparr>mtx = \<lparr>writer = False, readers = 0\<rparr>, transport = Some (External 1),
        tlsConfig = Some 2, clients = GoMap [10 \<mapsto> Some 0, 5 \<mapsto> Some 1]\<rparr>) 10 = Some (Some 0)"
    by blast
  with GetClient_frame[OF get] get reach show ?thesis
    by simp
qed

text \<open>
  C9. Every operation returns, for every input. \<open>NewClientPool\<close> is a value; every list
  of calls on a new pool, with any arguments (a nil transport, a nil TLS configuration,
  any timeout of 64 bits, zero and negative ones included), runs to its end; and in the
  state it reaches, \<open>SetTransport\<close> and \<open>SetDefaultTLSConfig\<close> return for every argument and
  \<open>GetClient t\<close> returns a client that is not nil and that the map then holds under the
  key \<open>t\<close>. No call has the outcome \<open>None\<close>, which stands for every way of not returning
  that the model has: a lock that is never granted, a fatal unlock, a write to a nil map.
\<close>

theorem operations_total:
  "\<exists>p h. run cs (NewClientPool, h0) = Some (p, h) \<and>
     (\<exists>p'. SetTransport tr p = Some p') \<and>
     (\<exists>p'. SetDefaultTLSConfig cfg p = Some p') \<and>
     (\<exists>a p' h'. GetClient t p h = Some (Some a, p', h') \<and>
        lookup_clients (clients p') t = Some (Some a))"
proof -
  from run_total[OF pool_inv_New] obtain p h where
    r: "run cs (NewClientPool, h0) = Some (p, h)"
    by blast
  from r have inv: "pool_inv p h" by (rule reachable_inv)
  then have free: "mtx p = mutex_zero" and made: "clients p \<noteq> NilMap"
    by (simp_all add: pool_inv_def)
  from GetClient_total[OF free made] obtain a p' h' where
    get: "GetClient t p h = Some (Some a, p', h')"
    by blast
  from pool_inv_GetClient[OF inv get] have "lookup_clients (clients p') t = Some (Some a)"
    by simp
  with r get free show ?thesis
    by (simp add: SetTransport_Some SetDefaultTLSConfig_Some mutex_zero_def)
qed

theorem operations_total_witness:
  "\<exists>p h. run [Call_GetClient 0, Call_SetTransport None, Call_GetClient (- 1),
              Call_SetDefaultTLSConfig None, Call_GetClient 0] (NewClientPool, empty_heap) =
            Some (p, h) \<and>
     (\<exists>p'. SetTransport None p = Some p') \<and>
     (\<exists>p'. SetDefaultTLSConfig None p = Some p') \<and>
     (\<exists>a p' h'. GetClient (- 1) p h = Some (Some a, p', h') \<and>
        lookup_clients (clients p') (- 1) = Some (Some a))"
  by (rule operations_total)

text \<open>
  C10. \<open>SetTransport\<close> changes the field \<open>transport\<close> and the map of clients and nothing
  else: \<open>tlsConfig\<close> is as before (and the lock is free again). \<open>SetDefaultTLSConfig\<close>
  changes the field \<open>tlsConfig\<close> and the map of clients and nothing else: \<open>transport\<close> is
  as before. Neither takes or returns the heap.
\<close>

theorem Set_frame:
  "(SetTransport tr p = Some p' \<longrightarrow>
      tlsConfig p' = tlsConfig p \<and> mtx p' = mtx p \<and>
      p' = p\<lparr>transport := tr, clients := GoMap Map.empty\<rparr>) \<and>
   (SetDefaultTLSConfig cfg p = Some p'' \<longrightarrow>
      transport p'' = transport p \<and> mtx p'' = mtx p \<and>
      p'' = p\<lparr>tlsConfig := cfg, clients := GoMap Map.empty\<rparr>)"
  by (simp add: SetTransport_Some SetDefaultTLSConfig_Some make_clients_def)

theorem Set_frame_witness:
  "SetTransport (Some (External 1))
       \<lparr>mtx = \<lparr>writer = False, readers = 0\<rparr>, transport = None, tlsConfig = Some 2,
        clients = GoMap [10 \<mapsto> Some 0]\<rparr> =
     Some \<lparr>mtx = \<lparr>writer = False, readers = 0\<rparr>, transport = Some (External 1),
           tlsConfig = Some 2, clients = GoMap Map.empty\<rparr> \<and>
   SetDefaultTLSConfig (Some 3)
       \<lparr>mtx = \<lparr>writer = False, readers = 0\<rparr>, transport = None, tlsConfig = Some 2,
        clients = GoMap [10 \<mapsto> Some 0]\<rparr> =
     Some \<lparr>mtx = \<lparr>writer = False, readers = 0\<rparr>, transport = None,
           tlsConfig = Some 3, clients = GoMap Map.empty\<rparr>"
proof -
  have set: "SetTransport (Some (External 1))
       \<lparr>mtx = \<lparr>writer = False, readers = 0\<rparr>, transport = None, tlsConfig = Some 2,
        clients = GoMap [10 \<mapsto> Some 0]\<rparr> =
     Some \<lparr>mtx = \<lparr>writer = False, readers = 0\<rparr>, transport = Some (External 1),
           tlsConfig = Some 2, clients = GoMap Map.empty\<rparr>"
    by (simp add: pool_defs)
  have tls: "SetDefaultTLSConfig (Some 3)
       \<lparr>mtx = \<lparr>writer = False, readers = 0\<rparr>, transport = None, tlsConfig = Some 2,
        clients = GoMap [10 \<mapsto> Some 0]\<rparr> =
     Some \<lparr>mtx = \<lparr>writer = False, readers = 0\<rparr>, transport = None,
           tlsConfig = Some 3, clients = GoMap Map.empty\<rparr>"
    by (simp add: pool_defs)
  from Set_frame[of "Some (External 1)" _ _ "Some 3"] set tls show ?thesis
    by simp
qed

end
